theory Spec2Isabelle
  imports Complex_Main
begin

section \<open>Data model of \<open>src/lib/RoomControl.js\<close>\<close>

text \<open>
  The controller keeps one status object per room. Every entry that arrives over the
  message transport is an object with an optional \<open>value\<close> and an optional \<open>since\<close>; a
  field that is missing reads as \<open>undefined\<close> in the source and as \<open>None\<close> here.

  Numbers (humidity, temperature, the two humidity thresholds) are modelled as reals with
  exact arithmetic. Timestamps are milliseconds since the epoch, as integers. The three
  durations of a fan are whole seconds.
\<close>

type_synonym timestamp = int

record 'a reading =
  val :: "'a option"
  since :: "timestamp option"

text \<open>
  The value stored under a light is a string when it comes from the transport. The
  constructor stores the object \<open>{value: 'off'}\<close> in its place (lines 73 to 77), which is
  \<open>Wrapped ''off''\<close> here; it is not a string, so it is never \<open>=== 'on'\<close>.
\<close>

datatype light_value = Plain string | Wrapped string

record fan_status =
  st_control :: "string reading option"
  st_speed :: "string reading option"
  st_minHumidityThreshold :: "real reading option"
  st_maxHumidityThreshold :: "real reading option"
  st_minRunTime :: "nat reading option"
  st_lightTimeout :: "nat reading option"
  st_trailingTime :: "nat reading option"

record room_status =
  rs_fans :: "string \<rightharpoonup> fan_status"
  rs_lights :: "string \<rightharpoonup> light_value reading"
  rs_humidity :: "real reading"
  rs_temperature :: "real reading"

text \<open>The static configuration of a room, as \<open>params.room\<close> carries it.\<close>

record fan =
  fan_id :: string
  fan_label :: string
  fan_minHumidityThreshold :: real
  fan_maxHumidityThreshold :: real
  fan_minRunTime :: nat
  fan_lightTimeout :: nat
  fan_trailingTime :: nat
  fan_triggerLights :: "string list"

record light =
  light_id :: string
  light_label :: string

record room_config =
  room_id :: string
  room_label :: string
  room_fans :: "fan list"
  room_lights :: "light list"

text \<open>
  The fields of a \<open>RoomControl\<close> object that the evaluation reads or writes. The logger,
  the transport client and the fan and light driver objects are collaborators outside
  the repository: a call into them is recorded as an event.

  \<open>fansMap\<close> holds one driver object for every configured fan (lines 46 to 51). Of a
  driver object the pass uses nothing but which property names it can be called under:
  \<open>fansMap c fid\<close> lists those names of the driver of fan \<open>fid\<close>, the three speeds apart.
\<close>

record controller =
  room :: room_config
  fansMap :: "string \<Rightarrow> string list"
  roomStatus :: room_status
  fansTrailing :: "string \<rightharpoonup> bool"

text \<open>
  \<open>Publish r f v\<close> is \<open>mqttClient.publish(fanSpeed(r, f), {value: v}, {retain: true})\<close>.
  \<open>Actuate f m\<close> is the call \<open>fansMap[f][m]()\<close> of the method \<open>m\<close> of the driver of fan
  \<open>f\<close>. \<open>Throws f m\<close> is the same expression where the driver has no method \<open>m\<close>: a
  \<open>TypeError\<close>, which nothing in \<open>updateFans\<close> catches, so the pass ends there. What the
  transport and the driver do with a call is theirs. Log lines are not recorded.
\<close>

datatype effect = Publish string string string | Actuate string string | Throws string string

section \<open>Reading the status (lines 110 to 121)\<close>

definition get_fan :: "room_status \<Rightarrow> string \<Rightarrow> (fan_status \<Rightarrow> 'a reading option) \<Rightarrow> 'a option" where
  "get_fan rs fid field =
     (case rs_fans rs fid of
        None \<Rightarrow> None
      | Some st \<Rightarrow> (case field st of None \<Rightarrow> None | Some r \<Rightarrow> val r))"

definition get_or :: "'a option \<Rightarrow> 'a \<Rightarrow> 'a" where
  "get_or v d = (case v of None \<Rightarrow> d | Some x \<Rightarrow> x)"

definition get_humidity :: "room_status \<Rightarrow> real option" where
  "get_humidity rs = val (rs_humidity rs)"

definition get_minHumidityThreshold :: "room_status \<Rightarrow> fan \<Rightarrow> real" where
  "get_minHumidityThreshold rs f =
     get_or (get_fan rs (fan_id f) st_minHumidityThreshold) (fan_minHumidityThreshold f)"

definition get_maxHumidityThreshold :: "room_status \<Rightarrow> fan \<Rightarrow> real" where
  "get_maxHumidityThreshold rs f =
     get_or (get_fan rs (fan_id f) st_maxHumidityThreshold) (fan_maxHumidityThreshold f)"

definition get_minRunTime :: "room_status \<Rightarrow> fan \<Rightarrow> nat" where
  "get_minRunTime rs f = get_or (get_fan rs (fan_id f) st_minRunTime) (fan_minRunTime f)"

definition get_lightTimeout :: "room_status \<Rightarrow> fan \<Rightarrow> nat" where
  "get_lightTimeout rs f = get_or (get_fan rs (fan_id f) st_lightTimeout) (fan_lightTimeout f)"

definition get_trailingTime :: "room_status \<Rightarrow> fan \<Rightarrow> nat" where
  "get_trailingTime rs f = get_or (get_fan rs (fan_id f) st_trailingTime) (fan_trailingTime f)"

definition get_control :: "room_status \<Rightarrow> fan \<Rightarrow> string" where
  "get_control rs f = get_or (get_fan rs (fan_id f) st_control) ''manual''"

definition get_speed :: "room_status \<Rightarrow> fan \<Rightarrow> string" where
  "get_speed rs f = get_or (get_fan rs (fan_id f) st_speed) ''off''"

definition get_speedSince :: "timestamp \<Rightarrow> room_status \<Rightarrow> fan \<Rightarrow> timestamp" where
  "get_speedSince now rs f =
     (case rs_fans rs (fan_id f) of
        None \<Rightarrow> now
      | Some st \<Rightarrow> (case st_speed st of None \<Rightarrow> now | Some r \<Rightarrow> get_or (since r) now))"

definition light_val :: "room_status \<Rightarrow> string \<Rightarrow> light_value option" where
  "light_val rs lightId = (case rs_lights rs lightId of None \<Rightarrow> None | Some r \<Rightarrow> val r)"

definition light_since :: "room_status \<Rightarrow> string \<Rightarrow> timestamp option" where
  "light_since rs lightId = (case rs_lights rs lightId of None \<Rightarrow> None | Some r \<Rightarrow> since r)"

text \<open>
  \<open>ms(`${n}s`)\<close> of the package \<open>millisecond\<close>, for a whole number of seconds, and
  \<open>moment().diff(t, 'millisecond')\<close> at the clock reading \<open>now\<close>.
\<close>

definition ms_seconds :: "nat \<Rightarrow> int" where
  "ms_seconds n = 1000 * int n"

definition diff_ms :: "timestamp \<Rightarrow> timestamp \<Rightarrow> int" where
  "diff_ms now t = now - t"

text \<open>
  Truthiness of a timestamp that may be \<open>null\<close> or \<open>undefined\<close> (both \<open>None\<close>): the
  number 0 is falsy too. A comparison with \<open>undefined\<close> on either side is false.
\<close>

definition truthy_ts :: "timestamp option \<Rightarrow> bool" where
  "truthy_ts t = (case t of None \<Rightarrow> False | Some x \<Rightarrow> x \<noteq> 0)"

definition js_less :: "timestamp option \<Rightarrow> timestamp option \<Rightarrow> bool" where
  "js_less a b = (case a of None \<Rightarrow> False | Some x \<Rightarrow> (case b of None \<Rightarrow> False | Some y \<Rightarrow> x < y))"

section \<open>The evaluation pass \<open>updateFans\<close> (lines 103 to 221)\<close>

text \<open>
  A pass is modelled at one clock reading \<open>now\<close>, which stands for every \<open>moment()\<close>
  and \<open>new Date()\<close> in it, and as running to its end before any other message is
  handled.
\<close>

text \<open>
  Lines 138 to 159: the speed the humidity asks for. The block runs only when the
  humidity is truthy, so not for a missing reading and not for the number 0.
\<close>

definition humiditySpeed :: "real option \<Rightarrow> real \<Rightarrow> real \<Rightarrow> string \<Rightarrow> string" where
  "humiditySpeed humidity minHumidityThreshold maxHumidityThreshold speed =
     (case humidity of
        None \<Rightarrow> ''off''
      | Some h \<Rightarrow>
          if h = 0 then ''off''
          else
            (let downToMinThreshold = minHumidityThreshold - 5;
                 downToMaxThreshold = maxHumidityThreshold - 10
             in if h > maxHumidityThreshold then ''max''
                else if speed = ''max'' \<and> h > downToMaxThreshold then ''max''
                else if h > minHumidityThreshold then ''min''
                else if speed = ''min'' \<and> h > downToMinThreshold then ''min''
                else ''off''))"

text \<open>
  Lines 161 to 183: the loop over the trigger lights, with its three variables
  \<open>minLightOnSince\<close>, \<open>maxLightOffSince\<close> and \<open>anyLightOn\<close>.
\<close>

fun scanLights ::
  "room_status \<Rightarrow> string list \<Rightarrow> timestamp option \<times> timestamp option \<times> bool
     \<Rightarrow> timestamp option \<times> timestamp option \<times> bool" where
  "scanLights rs [] acc = acc"
| "scanLights rs (lightId # ls) (minLightOnSince, maxLightOffSince, anyLightOn) =
     (if light_val rs lightId = Some (Plain ''on'')
      then scanLights rs ls
             (if \<not> truthy_ts minLightOnSince \<or> js_less (light_since rs lightId) minLightOnSince
              then light_since rs lightId else minLightOnSince,
              maxLightOffSince, True)
      else scanLights rs ls
             (minLightOnSince,
              if \<not> truthy_ts maxLightOffSince \<or> js_less maxLightOffSince (light_since rs lightId)
              then light_since rs lightId else maxLightOffSince,
              anyLightOn))"

text \<open>Lines 185 to 195: a light that has been on for longer than the timeout starts trailing.\<close>

definition lightTimeoutStep ::
  "timestamp \<Rightarrow> nat \<Rightarrow> timestamp option \<times> timestamp option \<times> bool \<Rightarrow> bool option \<Rightarrow> bool option" where
  "lightTimeoutStep now lightTimeout sc t =
     (case sc of (minLightOnSince, maxLightOffSince, anyLightOn) \<Rightarrow>
        (case minLightOnSince of
           Some onSince \<Rightarrow>
             if anyLightOn \<and> onSince \<noteq> 0 \<and> diff_ms now onSince > ms_seconds lightTimeout
             then Some True else t
         | None \<Rightarrow> t))"

text \<open>Lines 197 to 209: with every light off for longer than the trailing time, trailing ends.\<close>

definition trailingTimeStep ::
  "timestamp \<Rightarrow> nat \<Rightarrow> timestamp option \<times> timestamp option \<times> bool \<Rightarrow> bool option \<Rightarrow> bool option" where
  "trailingTimeStep now trailingTime sc t =
     (case sc of (minLightOnSince, maxLightOffSince, anyLightOn) \<Rightarrow>
        (case maxLightOffSince of
           Some offSince \<Rightarrow>
             if \<not> anyLightOn \<and> t = Some True \<and> offSince \<noteq> 0
                \<and> diff_ms now offSince > ms_seconds trailingTime
             then Some False else t
         | None \<Rightarrow> t))"

text \<open>
  The entry \<open>fansTrailing[fan.id]\<close> after lines 161 to 209, from the entry before them.
\<close>

definition trailingAfter :: "timestamp \<Rightarrow> fan \<Rightarrow> room_status \<Rightarrow> bool option \<Rightarrow> bool option" where
  "trailingAfter now f rs t =
     (let sc = scanLights rs (fan_triggerLights f) (None, None, False)
      in trailingTimeStep now (get_trailingTime rs f) sc
           (lightTimeoutStep now (get_lightTimeout rs f) sc t))"

text \<open>The candidate \<open>newSpeed\<close> at line 159, before the trailing override.\<close>

definition candidateSpeed :: "room_status \<Rightarrow> fan \<Rightarrow> string" where
  "candidateSpeed rs f =
     humiditySpeed (get_humidity rs) (get_minHumidityThreshold rs f)
       (get_maxHumidityThreshold rs f) (get_speed rs f)"

text \<open>Lines 211 to 213: \<open>newSpeed\<close> as it is committed.\<close>

definition newSpeed :: "timestamp \<Rightarrow> fan \<Rightarrow> room_status \<Rightarrow> bool option \<Rightarrow> string" where
  "newSpeed now f rs t =
     (if trailingAfter now f rs t = Some True then ''min'' else candidateSpeed rs f)"

text \<open>
  The two tests that end an iteration early: manual control (line 123) and the minimum
  run time (line 130). A fan that passes both is evaluated automatically.
\<close>

definition isManual :: "room_status \<Rightarrow> fan \<Rightarrow> bool" where
  "isManual rs f = (get_control rs f = ''manual'')"

definition keepRunning :: "timestamp \<Rightarrow> room_status \<Rightarrow> fan \<Rightarrow> bool" where
  "keepRunning now rs f =
     (get_speed rs f \<noteq> ''off''
      \<and> diff_ms now (get_speedSince now rs f) < ms_seconds (get_minRunTime rs f))"

definition autoEvaluated :: "timestamp \<Rightarrow> room_status \<Rightarrow> fan \<Rightarrow> bool" where
  "autoEvaluated now rs f = (\<not> isManual rs f \<and> \<not> keepRunning now rs f)"

text \<open>
  Modelled from the spec: the class \<open>Fan\<close> of the package
  \<open>@joachimhb/smart-home-shared\<close>, whose objects are the drivers, is not among the
  sources. Section 6 of the specification gives the calls of a driver as \<open>off\<close>, \<open>min\<close>
  and \<open>max\<close>, so every driver has these three methods; \<open>others\<close> are the further names
  it can be called under. A call under any other name throws.
\<close>

definition callable :: "string list \<Rightarrow> string \<Rightarrow> bool" where
  "callable others m = (m \<in> set [''off'', ''min'', ''max''] \<or> m \<in> set others)"

text \<open>
  The expression \<open>fansMap[fanId][m]()\<close> on a driver with the further names \<open>others\<close>,
  and whether a list of events ends the pass.
\<close>

definition driverCall :: "string list \<Rightarrow> string \<Rightarrow> string \<Rightarrow> effect list" where
  "driverCall others fanId m =
     (if callable others m then [Actuate fanId m] else [Throws fanId m])"

primrec threw :: "effect list \<Rightarrow> bool" where
  "threw [] = False"
| "threw (e # es) = (case e of Throws f m \<Rightarrow> True | _ \<Rightarrow> threw es)"

text \<open>
  Lines 215 to 219: the publish when \<open>newSpeed\<close> is not the recorded speed, then the
  call of the driver. \<open>newSpeed\<close> is \<open>off\<close>, \<open>min\<close> or \<open>max\<close> there, so the call has a
  method to go to.
\<close>

definition commit :: "string \<Rightarrow> string \<Rightarrow> string \<Rightarrow> string \<Rightarrow> effect list" where
  "commit roomId fanId speed ns =
     (if speed \<noteq> ns then [Publish roomId fanId ns] else []) @ [Actuate fanId ns]"

text \<open>
  One iteration of the loop of line 108, for the fan \<open>f\<close>. The status is read and never
  written; the only field written is the entry of \<open>f\<close> in \<open>fansTrailing\<close>. Where the
  source assigns neither \<open>true\<close> nor \<open>false\<close>, \<open>trailingAfter\<close> is the entry that was
  read, and storing it leaves \<open>fansTrailing\<close> as it was. Under manual control the
  recorded speed is the method name of line 124, whatever string it is.
\<close>

definition updateFan :: "timestamp \<Rightarrow> fan \<Rightarrow> controller \<Rightarrow> effect list \<times> controller" where
  "updateFan now f c =
     (let rs = roomStatus c;
          speed = get_speed rs f
      in if isManual rs f then (driverCall (fansMap c (fan_id f)) (fan_id f) speed, c)
         else if keepRunning now rs f then ([], c)
         else
           (let t = trailingAfter now f rs (fansTrailing c (fan_id f));
                ns = newSpeed now f rs (fansTrailing c (fan_id f))
            in (commit (room_id (room c)) (fan_id f) speed ns,
                c\<lparr>fansTrailing := (fansTrailing c)(fan_id f := t)\<rparr>)))"

text \<open>
  The loop of line 108. An iteration that throws ends it: the fans after it are not
  evaluated in this pass.
\<close>

fun updateFansLoop :: "timestamp \<Rightarrow> fan list \<Rightarrow> controller \<Rightarrow> effect list \<times> controller" where
  "updateFansLoop now [] c = ([], c)"
| "updateFansLoop now (f # fs) c =
     (case updateFan now f c of (es, c') \<Rightarrow>
        if threw es then (es, c')
        else (case updateFansLoop now fs c' of (es', c'') \<Rightarrow> (es @ es', c'')))"

definition updateFans :: "timestamp \<Rightarrow> controller \<Rightarrow> effect list \<times> controller" where
  "updateFans now c = updateFansLoop now (room_fans (room c)) c"

section \<open>The mutators (lines 223 to 281) and the constructor (lines 26 to 101)\<close>

text \<open>
  \<open>_.set(roomStatus, ['fans', id, k], data)\<close> creates the entry of \<open>id\<close> when the status
  has none, so it never fails, whatever the id. Every mutator then runs \<open>updateFans\<close>,
  without awaiting it: a pass that throws rejects its own promise and the mutator has
  returned.
\<close>

definition empty_fan_status :: fan_status where
  "empty_fan_status =
     \<lparr>st_control = None, st_speed = None, st_minHumidityThreshold = None,
      st_maxHumidityThreshold = None, st_minRunTime = None, st_lightTimeout = None,
      st_trailingTime = None\<rparr>"

definition set_fan :: "room_status \<Rightarrow> string \<Rightarrow> (fan_status \<Rightarrow> fan_status) \<Rightarrow> room_status" where
  "set_fan rs fid upd =
     rs\<lparr>rs_fans := (rs_fans rs)(fid \<mapsto>
           upd (case rs_fans rs fid of None \<Rightarrow> empty_fan_status | Some st \<Rightarrow> st))\<rparr>"

definition minHumidityThreshold ::
  "timestamp \<Rightarrow> string \<Rightarrow> real reading \<Rightarrow> controller \<Rightarrow> effect list \<times> controller" where
  "minHumidityThreshold now fid data c =
     updateFans now
       (c\<lparr>roomStatus := set_fan (roomStatus c) fid (\<lambda>st. st\<lparr>st_minHumidityThreshold := Some data\<rparr>)\<rparr>)"

definition maxHumidityThreshold ::
  "timestamp \<Rightarrow> string \<Rightarrow> real reading \<Rightarrow> controller \<Rightarrow> effect list \<times> controller" where
  "maxHumidityThreshold now fid data c =
     updateFans now
       (c\<lparr>roomStatus := set_fan (roomStatus c) fid (\<lambda>st. st\<lparr>st_maxHumidityThreshold := Some data\<rparr>)\<rparr>)"

definition minRunTime ::
  "timestamp \<Rightarrow> string \<Rightarrow> nat reading \<Rightarrow> controller \<Rightarrow> effect list \<times> controller" where
  "minRunTime now fid data c =
     updateFans now
       (c\<lparr>roomStatus := set_fan (roomStatus c) fid (\<lambda>st. st\<lparr>st_minRunTime := Some data\<rparr>)\<rparr>)"

definition lightTimeout ::
  "timestamp \<Rightarrow> string \<Rightarrow> nat reading \<Rightarrow> controller \<Rightarrow> effect list \<times> controller" where
  "lightTimeout now fid data c =
     updateFans now
       (c\<lparr>roomStatus := set_fan (roomStatus c) fid (\<lambda>st. st\<lparr>st_lightTimeout := Some data\<rparr>)\<rparr>)"

definition trailingTime ::
  "timestamp \<Rightarrow> string \<Rightarrow> nat reading \<Rightarrow> controller \<Rightarrow> effect list \<times> controller" where
  "trailingTime now fid data c =
     updateFans now
       (c\<lparr>roomStatus := set_fan (roomStatus c) fid (\<lambda>st. st\<lparr>st_trailingTime := Some data\<rparr>)\<rparr>)"

definition control ::
  "timestamp \<Rightarrow> string \<Rightarrow> string reading \<Rightarrow> controller \<Rightarrow> effect list \<times> controller" where
  "control now fid data c =
     updateFans now
       (c\<lparr>roomStatus := set_fan (roomStatus c) fid (\<lambda>st. st\<lparr>st_control := Some data\<rparr>)\<rparr>)"

definition speed ::
  "timestamp \<Rightarrow> string \<Rightarrow> string reading \<Rightarrow> controller \<Rightarrow> effect list \<times> controller" where
  "speed now fid data c =
     updateFans now
       (c\<lparr>roomStatus := set_fan (roomStatus c) fid (\<lambda>st. st\<lparr>st_speed := Some data\<rparr>)\<rparr>)"

definition lights ::
  "timestamp \<Rightarrow> string \<Rightarrow> light_value reading \<Rightarrow> controller \<Rightarrow> effect list \<times> controller" where
  "lights now lid data c =
     updateFans now
       (c\<lparr>roomStatus := (roomStatus c)\<lparr>rs_lights := (rs_lights (roomStatus c))(lid \<mapsto> data)\<rparr>\<rparr>)"

definition temperature :: "timestamp \<Rightarrow> real reading \<Rightarrow> controller \<Rightarrow> effect list \<times> controller" where
  "temperature now data c =
     updateFans now (c\<lparr>roomStatus := (roomStatus c)\<lparr>rs_temperature := data\<rparr>\<rparr>)"

definition humidity :: "timestamp \<Rightarrow> real reading \<Rightarrow> controller \<Rightarrow> effect list \<times> controller" where
  "humidity now data c =
     updateFans now (c\<lparr>roomStatus := (roomStatus c)\<lparr>rs_humidity := data\<rparr>\<rparr>)"

text \<open>
  The status the constructor builds: every configured fan under manual control with
  speed off, every configured light with the object \<open>{value: 'off'}\<close> as its value and
  no \<open>since\<close>, no reading, nothing trailing. Every driver is a \<open>new Fan(...)\<close>; the
  argument \<open>Fan\<close> stands for the imported class and lists the names, the three speeds
  apart, that its objects can be called under.
\<close>

definition initial_fan_status :: fan_status where
  "initial_fan_status =
     empty_fan_status
       \<lparr>st_control := Some \<lparr>val = Some ''manual'', since = None\<rparr>,
        st_speed := Some \<lparr>val = Some ''off'', since = None\<rparr>\<rparr>"

definition initial_light_status :: "light_value reading" where
  "initial_light_status = \<lparr>val = Some (Wrapped ''off''), since = None\<rparr>"

definition RoomControl :: "string list \<Rightarrow> room_config \<Rightarrow> controller" where
  "RoomControl Fan r =
     \<lparr>room = r,
      fansMap = (\<lambda>fid. Fan),
      roomStatus =
        \<lparr>rs_fans = map_of (map (\<lambda>f. (fan_id f, initial_fan_status)) (room_fans r)),
         rs_lights = map_of (map (\<lambda>l. (light_id l, initial_light_status)) (room_lights r)),
         rs_humidity = \<lparr>val = None, since = None\<rparr>,
         rs_temperature = \<lparr>val = None, since = None\<rparr>\<rparr>,
      fansTrailing = Map.empty\<rparr>"

section \<open>The cascade as the specification words it\<close>

definition specCascade :: "real \<Rightarrow> real \<Rightarrow> real \<Rightarrow> string \<Rightarrow> string" where
  "specCascade h minThreshold maxThreshold current =
     (if h > maxThreshold then ''max''
      else if current = ''max'' \<and> h > maxThreshold - 10 then ''max''
      else if h > minThreshold then ''min''
      else if current = ''min'' \<and> h > minThreshold - 5 then ''min''
      else ''off'')"

section \<open>A bathroom with one fan and one light\<close>

definition bath_fan :: fan where
  "bath_fan =
     \<lparr>fan_id = ''fan1'', fan_label = ''Fan'', fan_minHumidityThreshold = 60,
      fan_maxHumidityThreshold = 80, fan_minRunTime = 120, fan_lightTimeout = 600,
      fan_trailingTime = 300, fan_triggerLights = [''light1'']\<rparr>"

definition bath_room :: room_config where
  "bath_room =
     \<lparr>room_id = ''bath'', room_label = ''Bath'', room_fans = [bath_fan],
      room_lights = [\<lparr>light_id = ''light1'', light_label = ''Light''\<rparr>]\<rparr>"

text \<open>
  The bathroom after \<open>control\<close> and \<open>speed\<close> messages for its fan and a humidity
  reading; \<open>bath ctl spd t h tr\<close> has the fan under control \<open>ctl\<close> at speed \<open>spd\<close> since
  \<open>t\<close>, the humidity \<open>h\<close> and the trailing entry \<open>tr\<close>. Its driver answers to the three
  speeds only.
\<close>

definition bath :: "string \<Rightarrow> string \<Rightarrow> timestamp option \<Rightarrow> real option \<Rightarrow> bool option \<Rightarrow> controller" where
  "bath ctl spd t h tr =
     (RoomControl [] bath_room)
       \<lparr>roomStatus :=
          (set_fan
             (set_fan (roomStatus (RoomControl [] bath_room)) ''fan1''
                (\<lambda>st. st\<lparr>st_control := Some \<lparr>val = Some ctl, since = None\<rparr>\<rparr>))
             ''fan1'' (\<lambda>st. st\<lparr>st_speed := Some \<lparr>val = Some spd, since = t\<rparr>\<rparr>))
          \<lparr>rs_humidity := \<lparr>val = h, since = None\<rparr>\<rparr>,
        fansTrailing := (\<lambda>x. if x = ''fan1'' then tr else None)\<rparr>"

text \<open>The same bathroom with the thresholds of its fan overridden to \<open>lo\<close> and \<open>hi\<close>.\<close>

definition bath_thresholds :: "real \<Rightarrow> real \<Rightarrow> controller \<Rightarrow> controller" where
  "bath_thresholds lo hi c =
     c\<lparr>roomStatus :=
         set_fan
           (set_fan (roomStatus c) ''fan1''
              (\<lambda>st. st\<lparr>st_minHumidityThreshold := Some \<lparr>val = Some lo, since = None\<rparr>\<rparr>))
           ''fan1'' (\<lambda>st. st\<lparr>st_maxHumidityThreshold := Some \<lparr>val = Some hi, since = None\<rparr>\<rparr>)\<rparr>"

text \<open>
  The bathroom with a second fan: the first fan is under manual control at the recorded
  speed \<open>spd\<close>, the second under control \<open>auto\<close> at speed \<open>off\<close>, the humidity is 85.
\<close>

definition bath_fan2 :: fan where
  "bath_fan2 = bath_fan\<lparr>fan_id := ''fan2''\<rparr>"

definition bath_two :: "string \<Rightarrow> controller" where
  "bath_two spd =
     (RoomControl [] (bath_room\<lparr>room_fans := [bath_fan, bath_fan2]\<rparr>))
       \<lparr>roomStatus :=
          (set_fan
             (set_fan
                (roomStatus (RoomControl [] (bath_room\<lparr>room_fans := [bath_fan, bath_fan2]\<rparr>)))
                ''fan1'' (\<lambda>st. st\<lparr>st_speed := Some \<lparr>val = Some spd, since = None\<rparr>\<rparr>))
             ''fan2'' (\<lambda>st. st\<lparr>st_control := Some \<lparr>val = Some ''auto'', since = None\<rparr>\<rparr>))
          \<lparr>rs_humidity := \<lparr>val = Some 85, since = None\<rparr>\<rparr>\<rparr>"

section \<open>What an iteration reads, and which fan an event concerns\<close>

definition fanInputs ::
  "fan \<Rightarrow> room_status \<Rightarrow> fan_status option \<times> (string \<rightharpoonup> light_value reading) \<times> real reading" where
  "fanInputs f rs = (rs_fans rs (fan_id f), rs_lights rs, rs_humidity rs)"

definition effect_fan :: "effect \<Rightarrow> string" where
  "effect_fan e = (case e of Publish r f v \<Rightarrow> f | Actuate f m \<Rightarrow> f | Throws f m \<Rightarrow> f)"

definition eventsOf :: "fan \<Rightarrow> effect list \<Rightarrow> effect list" where
  "eventsOf f es = filter (\<lambda>e. effect_fan e = fan_id f) es"

text \<open>
  Two controllers of the same room, with the same drivers, that agree on everything but
  the status entries of fan ids the room does not configure.
\<close>

definition sameForConfigured :: "controller \<Rightarrow> controller \<Rightarrow> bool" where
  "sameForConfigured c c' =
     (room c' = room c \<and> fansMap c' = fansMap c \<and> fansTrailing c' = fansTrailing c
      \<and> rs_lights (roomStatus c') = rs_lights (roomStatus c)
      \<and> rs_humidity (roomStatus c') = rs_humidity (roomStatus c)
      \<and> rs_temperature (roomStatus c') = rs_temperature (roomStatus c)
      \<and> (\<forall>g \<in> set (room_fans (room c)).
            rs_fans (roomStatus c') (fan_id g) = rs_fans (roomStatus c) (fan_id g)))"

section \<open>The loop, one fan at a time\<close>

lemma scanLights_cong:
  assumes "rs_lights rs' = rs_lights rs"
  shows "scanLights rs' ls acc = scanLights rs ls acc"
proof -
  have v: "light_val rs' = light_val rs" and s: "light_since rs' = light_since rs"
    using assms by (simp_all add: light_val_def light_since_def fun_eq_iff)
  show ?thesis
  proof (induction ls arbitrary: acc)
    case Nil
    then show ?case by simp
  next
    case (Cons l ls)
    obtain a b d where acc: "acc = (a, b, d)" by (cases acc)
    show ?case unfolding acc by (simp add: v s Cons.IH)
  qed
qed

lemma fanInputs_getters:
  assumes "fanInputs f rs' = fanInputs f rs"
  shows "get_humidity rs' = get_humidity rs"
    and "get_minHumidityThreshold rs' f = get_minHumidityThreshold rs f"
    and "get_maxHumidityThreshold rs' f = get_maxHumidityThreshold rs f"
    and "get_minRunTime rs' f = get_minRunTime rs f"
    and "get_lightTimeout rs' f = get_lightTimeout rs f"
    and "get_trailingTime rs' f = get_trailingTime rs f"
    and "get_control rs' f = get_control rs f"
    and "get_speed rs' f = get_speed rs f"
    and "get_speedSince now rs' f = get_speedSince now rs f"
  using assms
  by (simp_all add: fanInputs_def get_humidity_def get_minHumidityThreshold_def
      get_maxHumidityThreshold_def get_minRunTime_def get_lightTimeout_def get_trailingTime_def
      get_control_def get_speed_def get_speedSince_def get_fan_def)

lemma fanInputs_scanLights:
  "fanInputs f rs' = fanInputs f rs \<Longrightarrow> scanLights rs' ls acc = scanLights rs ls acc"
  by (rule scanLights_cong) (simp add: fanInputs_def)

lemma fanInputs_decisions:
  assumes "fanInputs f rs' = fanInputs f rs"
  shows "isManual rs' f = isManual rs f"
    and "keepRunning now rs' f = keepRunning now rs f"
    and "trailingAfter now f rs' t = trailingAfter now f rs t"
    and "candidateSpeed rs' f = candidateSpeed rs f"
    and "newSpeed now f rs' t = newSpeed now f rs t"
  by (simp_all add: isManual_def keepRunning_def trailingAfter_def candidateSpeed_def
      newSpeed_def fanInputs_getters [OF assms] fanInputs_scanLights [OF assms])

text \<open>The speed that is committed is one of the three every driver has.\<close>

lemma humiditySpeed_cases:
  "humiditySpeed h lo hi s = ''off'' \<or> humiditySpeed h lo hi s = ''min''
   \<or> humiditySpeed h lo hi s = ''max''"
  by (simp add: humiditySpeed_def Let_def split: option.splits)

lemma newSpeed_callable: "callable others (newSpeed now f rs t)"
  using humiditySpeed_cases [of "get_humidity rs" "get_minHumidityThreshold rs f"
      "get_maxHumidityThreshold rs f" "get_speed rs f"]
  by (auto simp: callable_def newSpeed_def candidateSpeed_def)

lemma threw_append: "threw (es @ es') = (threw es \<or> threw es')"
  by (induction es) (simp_all split: effect.splits)

lemma threw_commit [simp]: "\<not> threw (commit r fid s ns)"
  by (simp add: commit_def)

lemma threw_driverCall [simp]: "threw (driverCall others fid m) = (\<not> callable others m)"
  by (simp add: driverCall_def)

lemma updateFan_reads:
  assumes "fanInputs f rs' = fanInputs f (roomStatus c)"
  shows "updateFan now f (c\<lparr>roomStatus := rs'\<rparr>) =
           (fst (updateFan now f c), (snd (updateFan now f c))\<lparr>roomStatus := rs'\<rparr>)"
  by (simp add: updateFan_def Let_def fanInputs_decisions [OF assms] fanInputs_getters [OF assms])

lemma updateFan_roomStatus [simp]: "roomStatus (snd (updateFan now f c)) = roomStatus c"
  by (simp add: updateFan_def Let_def)

lemma updateFan_room [simp]: "room (snd (updateFan now f c)) = room c"
  by (simp add: updateFan_def Let_def)

lemma updateFan_fansMap [simp]: "fansMap (snd (updateFan now f c)) = fansMap c"
  by (simp add: updateFan_def Let_def)

lemma updateFan_frame:
  "x \<noteq> fan_id f \<Longrightarrow> fansTrailing (snd (updateFan now f c)) x = fansTrailing c x"
  by (simp add: updateFan_def Let_def)

lemma updateFan_effect_fan:
  "e \<in> set (fst (updateFan now f c)) \<Longrightarrow> effect_fan e = fan_id f"
  by (auto simp: updateFan_def Let_def commit_def driverCall_def effect_fan_def split: if_splits)

text \<open>An iteration that throws is one under manual control, and changes nothing.\<close>

lemma updateFan_threw:
  "threw (fst (updateFan now f c)) \<Longrightarrow> snd (updateFan now f c) = c"
  by (simp add: updateFan_def Let_def split: if_splits)

lemma updateFansLoop_Cons:
  "updateFansLoop now (f # fs) c =
     (if threw (fst (updateFan now f c)) then updateFan now f c
      else (fst (updateFan now f c) @ fst (updateFansLoop now fs (snd (updateFan now f c))),
            snd (updateFansLoop now fs (snd (updateFan now f c)))))"
  by (simp split: prod.splits)

lemma updateFansLoop_single: "updateFansLoop now [f] c = updateFan now f c"
  by (simp add: updateFansLoop_Cons del: updateFansLoop.simps(2))

lemma updateFansLoop_roomStatus [simp]:
  "roomStatus (snd (updateFansLoop now fs c)) = roomStatus c"
  by (induction fs arbitrary: c) (simp_all add: updateFansLoop_Cons del: updateFansLoop.simps(2))

lemma updateFansLoop_room [simp]:
  "room (snd (updateFansLoop now fs c)) = room c"
  by (induction fs arbitrary: c) (simp_all add: updateFansLoop_Cons del: updateFansLoop.simps(2))

lemma updateFansLoop_fansMap [simp]:
  "fansMap (snd (updateFansLoop now fs c)) = fansMap c"
  by (induction fs arbitrary: c) (simp_all add: updateFansLoop_Cons del: updateFansLoop.simps(2))

lemma updateFansLoop_frame:
  "x \<notin> fan_id ` set fs \<Longrightarrow> fansTrailing (snd (updateFansLoop now fs c)) x = fansTrailing c x"
  by (induction fs arbitrary: c)
    (simp_all add: updateFansLoop_Cons updateFan_frame del: updateFansLoop.simps(2))

lemma updateFansLoop_reads:
  "\<forall>f\<in>set fs. fanInputs f rs' = fanInputs f (roomStatus c) \<Longrightarrow>
   updateFansLoop now fs (c\<lparr>roomStatus := rs'\<rparr>) =
     (fst (updateFansLoop now fs c), (snd (updateFansLoop now fs c))\<lparr>roomStatus := rs'\<rparr>)"
proof (induction fs arbitrary: c)
  case Nil
  then show ?case by simp
next
  case (Cons f fs)
  have one: "updateFan now f (c\<lparr>roomStatus := rs'\<rparr>) =
      (fst (updateFan now f c), (snd (updateFan now f c))\<lparr>roomStatus := rs'\<rparr>)"
    using updateFan_reads [of f rs' c now] Cons.prems by simp
  have rest: "updateFansLoop now fs ((snd (updateFan now f c))\<lparr>roomStatus := rs'\<rparr>) =
     (fst (updateFansLoop now fs (snd (updateFan now f c))),
      (snd (updateFansLoop now fs (snd (updateFan now f c))))\<lparr>roomStatus := rs'\<rparr>)"
    using Cons.IH [of "snd (updateFan now f c)"] Cons.prems by simp
  show ?case by (simp add: updateFansLoop_Cons one rest del: updateFansLoop.simps(2))
qed

lemma trailingAfter_idem:
  "trailingAfter now f rs (trailingAfter now f rs t) = trailingAfter now f rs t"
  by (simp add: trailingAfter_def Let_def lightTimeoutStep_def trailingTimeStep_def
      split: prod.splits option.splits)

lemma newSpeed_idem:
  "newSpeed now f rs (trailingAfter now f rs t) = newSpeed now f rs t"
  by (simp add: newSpeed_def trailingAfter_idem)

lemma updateFan_again:
  assumes "roomStatus c2 = roomStatus c" and "room c2 = room c" and "fansMap c2 = fansMap c"
    and "fansTrailing c2 (fan_id f) = fansTrailing (snd (updateFan now f c)) (fan_id f)"
  shows "updateFan now f c2 = (fst (updateFan now f c), c2)"
proof (cases "isManual (roomStatus c) f \<or> keepRunning now (roomStatus c) f")
  case True
  then show ?thesis using assms(1,3) by (auto simp: updateFan_def Let_def)
next
  case False
  then have t: "fansTrailing c2 (fan_id f) =
      trailingAfter now f (roomStatus c) (fansTrailing c (fan_id f))"
    using assms(4) by (simp add: updateFan_def Let_def)
  have "c2\<lparr>fansTrailing := (fansTrailing c2)(fan_id f := fansTrailing c2 (fan_id f))\<rparr> = c2"
    by simp
  then show ?thesis
    using False assms(1,2) t
    by (simp add: updateFan_def Let_def newSpeed_idem trailingAfter_idem)
qed

lemma updateFansLoop_again:
  "distinct (map fan_id fs) \<Longrightarrow> roomStatus c2 = roomStatus c \<Longrightarrow> room c2 = room c \<Longrightarrow>
   fansMap c2 = fansMap c \<Longrightarrow>
   \<forall>f\<in>set fs. fansTrailing c2 (fan_id f) = fansTrailing (snd (updateFansLoop now fs c)) (fan_id f) \<Longrightarrow>
   updateFansLoop now fs c2 = (fst (updateFansLoop now fs c), c2)"
proof (induction fs arbitrary: c)
  case Nil
  then show ?case by simp
next
  case (Cons f fs)
  let ?c' = "snd (updateFan now f c)"
  have notin: "fan_id f \<notin> fan_id ` set fs" using Cons.prems(1) by simp
  have kept: "fansTrailing (snd (updateFansLoop now fs ?c')) (fan_id f) = fansTrailing ?c' (fan_id f)"
    using updateFansLoop_frame [OF notin] .
  have "fansTrailing c2 (fan_id f) = fansTrailing (snd (updateFansLoop now (f # fs) c)) (fan_id f)"
    using Cons.prems(5) by simp
  then have "fansTrailing c2 (fan_id f) = fansTrailing ?c' (fan_id f)"
    using kept by (simp add: updateFansLoop_Cons del: updateFansLoop.simps(2) split: if_splits)
  then have one: "updateFan now f c2 = (fst (updateFan now f c), c2)"
    using updateFan_again [of c2 c f now] Cons.prems(2,3,4) by simp
  show ?case
  proof (cases "threw (fst (updateFan now f c))")
    case True
    then show ?thesis by (simp add: updateFansLoop_Cons one del: updateFansLoop.simps(2))
  next
    case False
    have rest: "updateFansLoop now fs c2 = (fst (updateFansLoop now fs ?c'), c2)"
    proof (rule Cons.IH)
      show "distinct (map fan_id fs)" using Cons.prems(1) by simp
      show "roomStatus c2 = roomStatus ?c'" using Cons.prems(2) by simp
      show "room c2 = room ?c'" using Cons.prems(3) by simp
      show "fansMap c2 = fansMap ?c'" using Cons.prems(4) by simp
      show "\<forall>g\<in>set fs. fansTrailing c2 (fan_id g) =
          fansTrailing (snd (updateFansLoop now fs ?c')) (fan_id g)"
        using Cons.prems(5) False
        by (simp add: updateFansLoop_Cons del: updateFansLoop.simps(2))
    qed
    show ?thesis
      using False by (simp add: updateFansLoop_Cons one rest del: updateFansLoop.simps(2))
  qed
qed

lemma updateFan_local:
  assumes "roomStatus c' = roomStatus c" and "room c' = room c" and "fansMap c' = fansMap c"
    and "fansTrailing c' (fan_id f) = fansTrailing c (fan_id f)"
  shows "fst (updateFan now f c') = fst (updateFan now f c)"
    and "fansTrailing (snd (updateFan now f c')) (fan_id f) =
         fansTrailing (snd (updateFan now f c)) (fan_id f)"
  by (simp_all add: updateFan_def Let_def assms)

lemma updateFansLoop_effect_fan:
  "e \<in> set (fst (updateFansLoop now fs c)) \<Longrightarrow> effect_fan e \<in> fan_id ` set fs"
  by (induction fs arbitrary: c)
    (auto simp: updateFansLoop_Cons dest: updateFan_effect_fan split: if_splits
      simp del: updateFansLoop.simps(2))

lemma eventsOf_append: "eventsOf f (es @ es') = eventsOf f es @ eventsOf f es'"
  by (simp add: eventsOf_def)

lemma eventsOf_own: "eventsOf f (fst (updateFan now f c)) = fst (updateFan now f c)"
  by (simp add: eventsOf_def updateFan_effect_fan)

lemma eventsOf_other:
  "fan_id g \<noteq> fan_id f \<Longrightarrow> eventsOf f (fst (updateFan now g c)) = []"
  by (auto simp: eventsOf_def filter_empty_conv dest: updateFan_effect_fan)

lemma eventsOf_rest:
  "fan_id f \<notin> fan_id ` set fs \<Longrightarrow> eventsOf f (fst (updateFansLoop now fs c)) = []"
proof -
  assume notin: "fan_id f \<notin> fan_id ` set fs"
  have "effect_fan e \<noteq> fan_id f" if "e \<in> set (fst (updateFansLoop now fs c))" for e
    using updateFansLoop_effect_fan [OF that] notin by auto
  then show ?thesis by (simp add: eventsOf_def filter_empty_conv)
qed

text \<open>
  In a room whose fans have distinct ids, a pass either reaches a fan, and then the
  events that concern the fan and the trailing entry left for it are those of its own
  iteration, or it has thrown before, and then no event concerns the fan and its
  trailing entry is as it was.
\<close>

lemma updateFansLoop_fan_cases:
  "distinct (map fan_id fs) \<Longrightarrow> f \<in> set fs \<Longrightarrow>
   eventsOf f (fst (updateFansLoop now fs c)) = fst (updateFan now f c)
     \<and> fansTrailing (snd (updateFansLoop now fs c)) (fan_id f) =
         fansTrailing (snd (updateFan now f c)) (fan_id f)
   \<or> eventsOf f (fst (updateFansLoop now fs c)) = []
     \<and> fansTrailing (snd (updateFansLoop now fs c)) (fan_id f) = fansTrailing c (fan_id f)
     \<and> threw (fst (updateFansLoop now fs c))"
proof (induction fs arbitrary: c)
  case Nil
  then show ?case by simp
next
  case (Cons g fs)
  let ?c' = "snd (updateFan now g c)"
  have notin: "fan_id g \<notin> fan_id ` set fs" using Cons.prems(1) by simp
  show ?case
  proof (cases "f = g")
    case True
    have "eventsOf g (fst (updateFansLoop now fs ?c')) = []"
      using eventsOf_rest [OF notin] .
    moreover have "fansTrailing (snd (updateFansLoop now fs ?c')) (fan_id g) =
        fansTrailing ?c' (fan_id g)"
      using updateFansLoop_frame [OF notin] .
    ultimately show ?thesis
      using True
      by (simp add: updateFansLoop_Cons eventsOf_append eventsOf_own del: updateFansLoop.simps(2))
  next
    case False
    then have mem: "f \<in> set fs" using Cons.prems(2) by simp
    then have ne: "fan_id g \<noteq> fan_id f" using notin by auto
    have same: "fansTrailing ?c' (fan_id f) = fansTrailing c (fan_id f)"
      using updateFan_frame [of "fan_id f" g now c] ne by simp
    show ?thesis
    proof (cases "threw (fst (updateFan now g c))")
      case True
      then show ?thesis
        using ne same
        by (simp add: updateFansLoop_Cons eventsOf_other del: updateFansLoop.simps(2))
    next
      case nothrow: False
      have loc: "fst (updateFan now f ?c') = fst (updateFan now f c)"
        "fansTrailing (snd (updateFan now f ?c')) (fan_id f) =
         fansTrailing (snd (updateFan now f c)) (fan_id f)"
        using updateFan_local [of ?c' c f now] same by simp_all
      have ih: "eventsOf f (fst (updateFansLoop now fs ?c')) = fst (updateFan now f ?c')
          \<and> fansTrailing (snd (updateFansLoop now fs ?c')) (fan_id f) =
              fansTrailing (snd (updateFan now f ?c')) (fan_id f)
        \<or> eventsOf f (fst (updateFansLoop now fs ?c')) = []
          \<and> fansTrailing (snd (updateFansLoop now fs ?c')) (fan_id f) = fansTrailing ?c' (fan_id f)
          \<and> threw (fst (updateFansLoop now fs ?c'))"
        using Cons.IH [of ?c'] Cons.prems(1) mem by simp
      then show ?thesis
        using nothrow loc same ne
        by (auto simp: updateFansLoop_Cons eventsOf_append eventsOf_other threw_append
            simp del: updateFansLoop.simps(2))
    qed
  qed
qed

lemma updateFansLoop_fan:
  assumes "distinct (map fan_id fs)" and "f \<in> set fs"
    and "\<not> threw (fst (updateFansLoop now fs c))"
  shows "eventsOf f (fst (updateFansLoop now fs c)) = fst (updateFan now f c)"
    and "fansTrailing (snd (updateFansLoop now fs c)) (fan_id f) =
         fansTrailing (snd (updateFan now f c)) (fan_id f)"
  using updateFansLoop_fan_cases [OF assms(1,2), of now c] assms(3) by auto

text \<open>
  A fan whose iteration has no event and leaves its trailing entry alone has no event in
  the pass and its entry left alone, whether the pass throws or not.
\<close>

lemma updateFansLoop_fan_skipped:
  assumes "distinct (map fan_id fs)" and "f \<in> set fs"
    and "fst (updateFan now f c) = []"
    and "fansTrailing (snd (updateFan now f c)) (fan_id f) = fansTrailing c (fan_id f)"
  shows "eventsOf f (fst (updateFansLoop now fs c)) = []"
    and "fansTrailing (snd (updateFansLoop now fs c)) (fan_id f) = fansTrailing c (fan_id f)"
  using updateFansLoop_fan_cases [OF assms(1,2), of now c] assms(3,4) by auto


text \<open>
  A status entry under a fan id that no configured fan has is outside what any iteration
  reads.
\<close>

lemma set_fan_inputs:
  "fan_id f \<noteq> fid \<Longrightarrow> fanInputs f (set_fan rs fid upd) = fanInputs f rs"
  by (simp add: fanInputs_def set_fan_def)

lemma updateFans_set_fan_unknown:
  assumes "fid \<notin> fan_id ` set (room_fans (room c))"
  shows "updateFans now (c\<lparr>roomStatus := set_fan (roomStatus c) fid upd\<rparr>) =
           (fst (updateFans now c),
            (snd (updateFans now c))\<lparr>roomStatus := set_fan (roomStatus c) fid upd\<rparr>)"
proof -
  have "\<forall>f\<in>set (room_fans (room c)).
      fanInputs f (set_fan (roomStatus c) fid upd) = fanInputs f (roomStatus c)"
    using assms by (auto intro: set_fan_inputs)
  then show ?thesis
    using updateFansLoop_reads [of "room_fans (room c)" "set_fan (roomStatus c) fid upd" c now]
    by (simp add: updateFans_def)
qed

lemma sameForConfigured_set_fan:
  assumes "fid \<notin> fan_id ` set (room_fans (room c))"
  shows "sameForConfigured (snd (updateFans now c))
           ((snd (updateFans now c))\<lparr>roomStatus := set_fan (roomStatus c) fid upd\<rparr>)"
  using assms by (auto simp: sameForConfigured_def updateFans_def set_fan_def)

lemma scanLights_no_since:
  "\<forall>l\<in>set ls. light_val rs l \<noteq> Some (Plain ''on'') \<and> light_since rs l = None \<Longrightarrow>
   scanLights rs ls (a, None, d) = (a, None, d)"
  by (induction ls) (simp_all add: truthy_ts_def)

section \<open>Evaluating the model on the bathroom\<close>

lemmas status_defs =
  get_fan_def get_or_def get_humidity_def get_minHumidityThreshold_def
  get_maxHumidityThreshold_def get_minRunTime_def get_lightTimeout_def get_trailingTime_def
  get_control_def get_speed_def get_speedSince_def light_val_def light_since_def
  ms_seconds_def diff_ms_def truthy_ts_def js_less_def

lemmas pass_defs =
  updateFans_def updateFan_def commit_def driverCall_def callable_def newSpeed_def candidateSpeed_def humiditySpeed_def
  trailingAfter_def lightTimeoutStep_def trailingTimeStep_def isManual_def keepRunning_def
  autoEvaluated_def Let_def

lemmas bath_defs =
  bath_def bath_thresholds_def bath_two_def bath_fan2_def bath_room_def bath_fan_def
  RoomControl_def set_fan_def initial_fan_status_def initial_light_status_def
  empty_fan_status_def

text \<open>
  A recorded speed that no driver method answers to, under manual control: the call of
  line 124 throws, the iteration does nothing else, and the pass ends before the second
  fan. With a speed the driver has, the pass goes on to the second fan.
\<close>

lemma manual_unknown_speed_throws:
  assumes "isManual (roomStatus c) f"
    and "\<not> callable (fansMap c (fan_id f)) (get_speed (roomStatus c) f)"
  shows "updateFan now f c = ([Throws (fan_id f) (get_speed (roomStatus c) f)], c)"
  using assms by (simp add: updateFan_def driverCall_def Let_def)

lemma unknown_speed_ends_pass:
  "updateFans 1000 (bath_two ''medium'') = ([Throws ''fan1'' ''medium''], bath_two ''medium'')"
  by (simp add: status_defs pass_defs bath_defs)

lemma known_speed_goes_on:
  "fst (updateFans 1000 (bath_two ''max'')) =
     [Actuate ''fan1'' ''max'', Publish ''bath'' ''fan2'' ''max'', Actuate ''fan2'' ''max'']"
  by (simp add: status_defs pass_defs bath_defs)

section \<open>The humidity cascade\<close>

text \<open>
  Claim C1, as stated: for a fan evaluated automatically with a humidity reading present,
  the candidate speed is the cascade of the specification. It fails for the reading 0:
  with the low threshold at 3 and the fan at \<open>min\<close>, the cascade keeps \<open>min\<close>
  (0 is above 3 - 5), and the code, which tests \<open>if(humidity)\<close> first, answers \<open>off\<close>.
\<close>

theorem cascade_zero_humidity_counterexample:
  "autoEvaluated 500000
     (roomStatus (bath_thresholds 3 80 (bath ''auto'' ''min'' (Some 1000) (Some 0) None))) bath_fan
   \<and> get_humidity
       (roomStatus (bath_thresholds 3 80 (bath ''auto'' ''min'' (Some 1000) (Some 0) None))) = Some 0
   \<and> get_minHumidityThreshold
       (roomStatus (bath_thresholds 3 80 (bath ''auto'' ''min'' (Some 1000) (Some 0) None))) bath_fan = 3
   \<and> get_maxHumidityThreshold
       (roomStatus (bath_thresholds 3 80 (bath ''auto'' ''min'' (Some 1000) (Some 0) None))) bath_fan = 80
   \<and> get_speed
       (roomStatus (bath_thresholds 3 80 (bath ''auto'' ''min'' (Some 1000) (Some 0) None))) bath_fan
       = ''min''
   \<and> specCascade 0 3 80 ''min'' = ''min''
   \<and> candidateSpeed
       (roomStatus (bath_thresholds 3 80 (bath ''auto'' ''min'' (Some 1000) (Some 0) None))) bath_fan
       = ''off''"
  by (simp add: status_defs pass_defs bath_defs specCascade_def)

text \<open>
  Claim C1, amended: for a fan evaluated automatically with a humidity reading that is
  present and not 0, the candidate speed is the cascade of the specification, and the
  iteration commits that speed unless the fan is trailing after the light step.
\<close>

theorem candidateSpeed_cascade:
  assumes "autoEvaluated now (roomStatus c) f"
    and "get_humidity (roomStatus c) = Some h" and "h \<noteq> 0"
  shows "candidateSpeed (roomStatus c) f =
           specCascade h (get_minHumidityThreshold (roomStatus c) f)
             (get_maxHumidityThreshold (roomStatus c) f) (get_speed (roomStatus c) f)
         \<and> fst (updateFan now f c) =
             commit (room_id (room c)) (fan_id f) (get_speed (roomStatus c) f)
               (if trailingAfter now f (roomStatus c) (fansTrailing c (fan_id f)) = Some True
                then ''min''
                else specCascade h (get_minHumidityThreshold (roomStatus c) f)
                       (get_maxHumidityThreshold (roomStatus c) f) (get_speed (roomStatus c) f))"
proof -
  have cand: "candidateSpeed (roomStatus c) f =
           specCascade h (get_minHumidityThreshold (roomStatus c) f)
             (get_maxHumidityThreshold (roomStatus c) f) (get_speed (roomStatus c) f)"
    using assms(2,3) by (simp add: candidateSpeed_def humiditySpeed_def specCascade_def Let_def)
  show ?thesis
    using assms(1) cand by (simp add: updateFan_def autoEvaluated_def newSpeed_def Let_def)
qed

theorem candidateSpeed_cascade_witness:
  "autoEvaluated 1000 (roomStatus (bath ''auto'' ''off'' None (Some 85) None)) bath_fan
   \<and> get_humidity (roomStatus (bath ''auto'' ''off'' None (Some 85) None)) = Some 85
   \<and> candidateSpeed (roomStatus (bath ''auto'' ''off'' None (Some 85) None)) bath_fan = ''max''
   \<and> fst (updateFan 1000 bath_fan (bath ''auto'' ''off'' None (Some 85) None)) =
       [Publish ''bath'' ''fan1'' ''max'', Actuate ''fan1'' ''max'']"
proof -
  let ?c = "bath ''auto'' ''off'' None (Some 85) None"
  have a: "autoEvaluated 1000 (roomStatus ?c) bath_fan"
    by (simp add: status_defs pass_defs bath_defs)
  have h: "get_humidity (roomStatus ?c) = Some 85"
    by (simp add: status_defs bath_defs)
  have n: "(85::real) \<noteq> 0" by simp
  show ?thesis
    using a h candidateSpeed_cascade [OF a h n]
    by (simp add: status_defs bath_defs specCascade_def commit_def trailingAfter_def
        lightTimeoutStep_def trailingTimeStep_def)
qed

section \<open>Trailing and the committed speed\<close>

text \<open>
  Claim C2 says that trailing never lowers a \<open>max\<close> decision. The code at the input
  below: humidity 85 above the high threshold 80, the fan trailing, no light on. The
  candidate speed is \<open>max\<close>; line 212 overwrites it, and the pass publishes and commands
  \<open>min\<close>.
\<close>

theorem trailing_lowers_max:
  "autoEvaluated 1000 (roomStatus (bath ''auto'' ''off'' None (Some 85) (Some True))) bath_fan
   \<and> get_humidity (roomStatus (bath ''auto'' ''off'' None (Some 85) (Some True))) = Some 85
   \<and> get_maxHumidityThreshold (roomStatus (bath ''auto'' ''off'' None (Some 85) (Some True))) bath_fan = 80
   \<and> candidateSpeed (roomStatus (bath ''auto'' ''off'' None (Some 85) (Some True))) bath_fan = ''max''
   \<and> fansTrailing (snd (updateFans 1000 (bath ''auto'' ''off'' None (Some 85) (Some True)))) ''fan1''
       = Some True
   \<and> fst (updateFans 1000 (bath ''auto'' ''off'' None (Some 85) (Some True))) =
       [Publish ''bath'' ''fan1'' ''min'', Actuate ''fan1'' ''min'']"
  by (simp add: status_defs pass_defs bath_defs)

section \<open>The two early exits of an iteration\<close>

text \<open>
  Claim C3: a fan under control \<open>auto\<close> whose speed is not \<open>off\<close> and was set less than
  \<open>minRunTime\<close> seconds ago is skipped. Its iteration has no event and returns the
  controller as it was, whatever the humidity reading is. In a pass over a room with
  distinct fan ids, no event concerns the fan, and its trailing entry and the whole
  status are as before the pass.
\<close>

theorem minRunTime_guard_skips:
  assumes "get_control (roomStatus c) f = ''auto''"
    and "get_speed (roomStatus c) f \<noteq> ''off''"
    and "diff_ms now (get_speedSince now (roomStatus c) f)
           < ms_seconds (get_minRunTime (roomStatus c) f)"
  shows "updateFan now f c = ([], c)
         \<and> updateFan now f (c\<lparr>roomStatus := (roomStatus c)\<lparr>rs_humidity := h\<rparr>\<rparr>) =
             ([], c\<lparr>roomStatus := (roomStatus c)\<lparr>rs_humidity := h\<rparr>\<rparr>)
         \<and> (f \<in> set (room_fans (room c)) \<and> distinct (map fan_id (room_fans (room c))) \<longrightarrow>
              eventsOf f (fst (updateFans now c)) = []
              \<and> fansTrailing (snd (updateFans now c)) (fan_id f) = fansTrailing c (fan_id f)
              \<and> roomStatus (snd (updateFans now c)) = roomStatus c)"
proof -
  have skip: "\<not> isManual (roomStatus c) f \<and> keepRunning now (roomStatus c) f"
    using assms by (simp add: isManual_def keepRunning_def)
  then have one: "updateFan now f c = ([], c)"
    by (simp add: updateFan_def Let_def)
  let ?rs = "(roomStatus c)\<lparr>rs_humidity := h\<rparr>"
  have "get_control ?rs f = get_control (roomStatus c) f"
    "get_speed ?rs f = get_speed (roomStatus c) f"
    "get_speedSince now ?rs f = get_speedSince now (roomStatus c) f"
    "get_minRunTime ?rs f = get_minRunTime (roomStatus c) f"
    by (simp_all add: get_control_def get_speed_def get_speedSince_def get_minRunTime_def
        get_fan_def)
  then have "\<not> isManual ?rs f \<and> keepRunning now ?rs f"
    using skip by (simp add: isManual_def keepRunning_def)
  then have two: "updateFan now f (c\<lparr>roomStatus := ?rs\<rparr>) = ([], c\<lparr>roomStatus := ?rs\<rparr>)"
    by (simp add: updateFan_def Let_def)
  have three: "eventsOf f (fst (updateFans now c)) = []
      \<and> fansTrailing (snd (updateFans now c)) (fan_id f) = fansTrailing c (fan_id f)
      \<and> roomStatus (snd (updateFans now c)) = roomStatus c"
    if "f \<in> set (room_fans (room c))" and "distinct (map fan_id (room_fans (room c)))"
    using updateFansLoop_fan_skipped [OF that(2) that(1), of now c] one
    by (simp add: updateFans_def)
  show ?thesis using one two three by blast
qed

theorem minRunTime_guard_skips_witness:
  "get_control (roomStatus (bath ''auto'' ''max'' (Some 1000) (Some 50) None)) bath_fan = ''auto''
   \<and> get_speed (roomStatus (bath ''auto'' ''max'' (Some 1000) (Some 50) None)) bath_fan \<noteq> ''off''
   \<and> diff_ms 11000 (get_speedSince 11000 (roomStatus (bath ''auto'' ''max'' (Some 1000) (Some 50) None)) bath_fan)
       < ms_seconds (get_minRunTime (roomStatus (bath ''auto'' ''max'' (Some 1000) (Some 50) None)) bath_fan)
   \<and> updateFans 11000 (bath ''auto'' ''max'' (Some 1000) (Some 50) None) =
       ([], bath ''auto'' ''max'' (Some 1000) (Some 50) None)
   \<and> eventsOf bath_fan (fst (updateFans 11000 (bath ''auto'' ''max'' (Some 1000) (Some 50) None))) = []"
proof -
  let ?c = "bath ''auto'' ''max'' (Some 1000) (Some 50) None"
  have a: "get_control (roomStatus ?c) bath_fan = ''auto''"
    by (simp add: status_defs bath_defs)
  have b: "get_speed (roomStatus ?c) bath_fan \<noteq> ''off''"
    by (simp add: status_defs bath_defs)
  have d: "diff_ms 11000 (get_speedSince 11000 (roomStatus ?c) bath_fan)
       < ms_seconds (get_minRunTime (roomStatus ?c) bath_fan)"
    by (simp add: status_defs bath_defs)
  have m: "bath_fan \<in> set (room_fans (room ?c)) \<and> distinct (map fan_id (room_fans (room ?c)))"
    by (simp add: bath_def RoomControl_def bath_room_def)
  have one: "updateFans 11000 ?c = updateFan 11000 bath_fan ?c"
    by (simp add: updateFans_def bath_def RoomControl_def bath_room_def updateFansLoop_single
        del: updateFansLoop.simps(2))
  show ?thesis
    using a b d m one minRunTime_guard_skips [OF a b d] by simp
qed



section \<open>The commit step and repeated passes\<close>

text \<open>
  Claim C5, as stated, has the pass write \<open>{value: newSpeed, since: now}\<close> into the
  status when the speed changes. \<open>updateFans\<close> never writes the status: at the input
  below the pass decides \<open>max\<close> for a fan recorded as \<open>off\<close>, and the speed entry is
  still \<open>{value: 'off'}\<close> afterwards.
\<close>

theorem commit_leaves_status_counterexample:
  "autoEvaluated 1000 (roomStatus (bath ''auto'' ''off'' None (Some 85) None)) bath_fan
   \<and> get_speed (roomStatus (bath ''auto'' ''off'' None (Some 85) None)) bath_fan = ''off''
   \<and> newSpeed 1000 bath_fan (roomStatus (bath ''auto'' ''off'' None (Some 85) None))
       (fansTrailing (bath ''auto'' ''off'' None (Some 85) None) ''fan1'') = ''max''
   \<and> map_option st_speed
       (rs_fans (roomStatus (snd (updateFans 1000 (bath ''auto'' ''off'' None (Some 85) None)))) ''fan1'')
       = Some (Some \<lparr>val = Some ''off'', since = None\<rparr>)"
  by (simp add: status_defs pass_defs bath_defs)

text \<open>
  Claim C5, amended: for a fan evaluated automatically, the publish of
  \<open>{value: newSpeed}\<close> is emitted exactly when \<open>newSpeed\<close> is not the recorded speed,
  the driver is called with \<open>newSpeed\<close> in either case, and the status (speed value and
  \<open>since\<close> included) is left as it was, by the iteration and by the whole pass. In a
  pass that does not throw, over a room with distinct fan ids, these are all the events
  of the pass that concern the fan.
\<close>

theorem commit_publishes_on_change:
  assumes "autoEvaluated now (roomStatus c) f"
  shows "fst (updateFan now f c) =
           (if newSpeed now f (roomStatus c) (fansTrailing c (fan_id f)) \<noteq> get_speed (roomStatus c) f
            then [Publish (room_id (room c)) (fan_id f)
                    (newSpeed now f (roomStatus c) (fansTrailing c (fan_id f)))]
            else [])
           @ [Actuate (fan_id f) (newSpeed now f (roomStatus c) (fansTrailing c (fan_id f)))]
         \<and> roomStatus (snd (updateFan now f c)) = roomStatus c
         \<and> roomStatus (snd (updateFans now c)) = roomStatus c
         \<and> (f \<in> set (room_fans (room c)) \<and> distinct (map fan_id (room_fans (room c)))
              \<and> \<not> threw (fst (updateFans now c)) \<longrightarrow>
              eventsOf f (fst (updateFans now c)) = fst (updateFan now f c))"
proof -
  have one: "fst (updateFan now f c) =
           (if newSpeed now f (roomStatus c) (fansTrailing c (fan_id f)) \<noteq> get_speed (roomStatus c) f
            then [Publish (room_id (room c)) (fan_id f)
                    (newSpeed now f (roomStatus c) (fansTrailing c (fan_id f)))]
            else [])
           @ [Actuate (fan_id f) (newSpeed now f (roomStatus c) (fansTrailing c (fan_id f)))]"
    using assms by (auto simp: updateFan_def autoEvaluated_def commit_def Let_def)
  have two: "eventsOf f (fst (updateFans now c)) = fst (updateFan now f c)"
    if "f \<in> set (room_fans (room c))" and "distinct (map fan_id (room_fans (room c)))"
      and "\<not> threw (fst (updateFans now c))"
    using updateFansLoop_fan(1) [OF that(2) that(1), of now c] that(3)
    by (simp add: updateFans_def)
  have three: "roomStatus (snd (updateFans now c)) = roomStatus c"
    by (simp add: updateFans_def)
  show ?thesis using one two three by simp
qed

theorem commit_publishes_on_change_witness:
  "autoEvaluated 200000 (roomStatus (bath ''auto'' ''max'' (Some 1000) (Some 85) None)) bath_fan
   \<and> \<not> threw (fst (updateFans 200000 (bath ''auto'' ''max'' (Some 1000) (Some 85) None)))
   \<and> fst (updateFan 200000 bath_fan (bath ''auto'' ''max'' (Some 1000) (Some 85) None)) =
       [Actuate ''fan1'' ''max'']
   \<and> eventsOf bath_fan (fst (updateFans 200000 (bath ''auto'' ''max'' (Some 1000) (Some 85) None))) =
       [Actuate ''fan1'' ''max'']
   \<and> roomStatus (snd (updateFans 200000 (bath ''auto'' ''max'' (Some 1000) (Some 85) None))) =
       roomStatus (bath ''auto'' ''max'' (Some 1000) (Some 85) None)"
proof -
  let ?c = "bath ''auto'' ''max'' (Some 1000) (Some 85) None"
  have a: "autoEvaluated 200000 (roomStatus ?c) bath_fan"
    by (simp add: status_defs pass_defs bath_defs)
  have m: "bath_fan \<in> set (room_fans (room ?c)) \<and> distinct (map fan_id (room_fans (room ?c)))"
    by (simp add: bath_def RoomControl_def bath_room_def)
  have n: "newSpeed 200000 bath_fan (roomStatus ?c) (fansTrailing ?c ''fan1'') = ''max''"
    by (simp add: status_defs pass_defs bath_defs)
  have s: "get_speed (roomStatus ?c) bath_fan = ''max''" "fan_id bath_fan = ''fan1''"
    by (simp_all add: status_defs bath_defs)
  have q: "\<not> threw (fst (updateFans 200000 ?c))"
    by (simp add: status_defs pass_defs bath_defs)
  show ?thesis
    using a m q commit_publishes_on_change [OF a] by (simp add: n s)
qed

text \<open>
  Claim C6, as stated, has no publish on the second of two passes over unchanged
  inputs. Since a pass does not record the speed it decided, the second pass decides
  and publishes again.
\<close>

theorem second_pass_publishes_counterexample:
  "fst (updateFans 1000 (bath ''auto'' ''off'' None (Some 85) None)) =
     [Publish ''bath'' ''fan1'' ''max'', Actuate ''fan1'' ''max'']
   \<and> fst (updateFans 1000 (snd (updateFans 1000 (bath ''auto'' ''off'' None (Some 85) None)))) =
     [Publish ''bath'' ''fan1'' ''max'', Actuate ''fan1'' ''max'']"
  by (simp add: status_defs pass_defs bath_defs)

text \<open>
  Claim C6, amended: in a room with distinct fan ids, a second pass at the same clock
  reading returns the events of the first pass and leaves the controller as the first
  pass left it; no pass changes the status, so no \<open>since\<close> of a speed changes.
\<close>

theorem second_pass_repeats_first:
  assumes "distinct (map fan_id (room_fans (room c)))"
  shows "updateFans now (snd (updateFans now c)) = (fst (updateFans now c), snd (updateFans now c))
         \<and> roomStatus (snd (updateFans now c)) = roomStatus c"
proof -
  let ?fs = "room_fans (room c)"
  let ?c2 = "snd (updateFansLoop now ?fs c)"
  have "updateFansLoop now ?fs ?c2 = (fst (updateFansLoop now ?fs c), ?c2)"
    by (rule updateFansLoop_again [OF assms]) simp_all
  then show ?thesis by (simp add: updateFans_def)
qed

theorem second_pass_repeats_first_witness:
  "distinct (map fan_id (room_fans (room (bath ''auto'' ''off'' None (Some 50) (Some True)))))
   \<and> fst (updateFans 1000 (bath ''auto'' ''off'' None (Some 50) (Some True))) =
       [Publish ''bath'' ''fan1'' ''min'', Actuate ''fan1'' ''min'']
   \<and> updateFans 1000 (snd (updateFans 1000 (bath ''auto'' ''off'' None (Some 50) (Some True)))) =
       ([Publish ''bath'' ''fan1'' ''min'', Actuate ''fan1'' ''min''],
        snd (updateFans 1000 (bath ''auto'' ''off'' None (Some 50) (Some True))))"
proof -
  let ?c = "bath ''auto'' ''off'' None (Some 50) (Some True)"
  have d: "distinct (map fan_id (room_fans (room ?c)))"
    by (simp add: bath_def RoomControl_def bath_room_def)
  have e: "fst (updateFans 1000 ?c) = [Publish ''bath'' ''fan1'' ''min'', Actuate ''fan1'' ''min'']"
    by (simp add: status_defs pass_defs bath_defs)
  show ?thesis
    using d e second_pass_repeats_first [OF d, of 1000] by simp
qed

section \<open>What the pass does not read\<close>

text \<open>
  Claim C7: each of the seven fan mutators, called with a fan id that the room does not
  configure, stores its entry (the model has no failing branch: \<open>_.set\<close> creates the
  missing entry) and runs a pass that ignores it. The events of that pass are those of
  a pass without the call, and the controller it leaves differs from the one such a
  pass leaves only in status entries of unconfigured fan ids.
\<close>

theorem unknown_fan_id_ignored:
  assumes "fid \<notin> fan_id ` set (room_fans (room c))"
  shows "(fst (control now fid d1 c) = fst (updateFans now c)
          \<and> sameForConfigured (snd (updateFans now c)) (snd (control now fid d1 c)))
       \<and> (fst (speed now fid d2 c) = fst (updateFans now c)
          \<and> sameForConfigured (snd (updateFans now c)) (snd (speed now fid d2 c)))
       \<and> (fst (minHumidityThreshold now fid d3 c) = fst (updateFans now c)
          \<and> sameForConfigured (snd (updateFans now c)) (snd (minHumidityThreshold now fid d3 c)))
       \<and> (fst (maxHumidityThreshold now fid d4 c) = fst (updateFans now c)
          \<and> sameForConfigured (snd (updateFans now c)) (snd (maxHumidityThreshold now fid d4 c)))
       \<and> (fst (minRunTime now fid d5 c) = fst (updateFans now c)
          \<and> sameForConfigured (snd (updateFans now c)) (snd (minRunTime now fid d5 c)))
       \<and> (fst (lightTimeout now fid d6 c) = fst (updateFans now c)
          \<and> sameForConfigured (snd (updateFans now c)) (snd (lightTimeout now fid d6 c)))
       \<and> (fst (trailingTime now fid d7 c) = fst (updateFans now c)
          \<and> sameForConfigured (snd (updateFans now c)) (snd (trailingTime now fid d7 c)))"
  using updateFans_set_fan_unknown [OF assms] sameForConfigured_set_fan [OF assms]
  by (simp add: control_def speed_def minHumidityThreshold_def maxHumidityThreshold_def
      minRunTime_def lightTimeout_def trailingTime_def)

theorem unknown_fan_id_ignored_witness:
  "''fan9'' \<notin> fan_id ` set (room_fans (room (bath ''auto'' ''off'' None (Some 85) None)))
   \<and> fst (updateFans 1000 (bath ''auto'' ''off'' None (Some 85) None)) =
       [Publish ''bath'' ''fan1'' ''max'', Actuate ''fan1'' ''max'']
   \<and> fst (control 1000 ''fan9'' \<lparr>val = Some ''manual'', since = None\<rparr>
            (bath ''auto'' ''off'' None (Some 85) None)) =
       [Publish ''bath'' ''fan1'' ''max'', Actuate ''fan1'' ''max'']
   \<and> fst (speed 1000 ''fan9'' \<lparr>val = Some ''min'', since = Some 1000\<rparr>
            (bath ''auto'' ''off'' None (Some 85) None)) =
       [Publish ''bath'' ''fan1'' ''max'', Actuate ''fan1'' ''max'']
   \<and> fst (maxHumidityThreshold 1000 ''fan9'' \<lparr>val = Some 90, since = None\<rparr>
            (bath ''auto'' ''off'' None (Some 85) None)) =
       [Publish ''bath'' ''fan1'' ''max'', Actuate ''fan1'' ''max'']
   \<and> sameForConfigured (snd (updateFans 1000 (bath ''auto'' ''off'' None (Some 85) None)))
        (snd (maxHumidityThreshold 1000 ''fan9'' \<lparr>val = Some 90, since = None\<rparr>
               (bath ''auto'' ''off'' None (Some 85) None)))"
proof -
  let ?c = "bath ''auto'' ''off'' None (Some 85) None"
  have u: "''fan9'' \<notin> fan_id ` set (room_fans (room ?c))"
    by (simp add: bath_def RoomControl_def bath_room_def bath_fan_def)
  have e: "fst (updateFans 1000 ?c) = [Publish ''bath'' ''fan1'' ''max'', Actuate ''fan1'' ''max'']"
    by (simp add: status_defs pass_defs bath_defs)
  show ?thesis
    using u e
      unknown_fan_id_ignored [OF u, where now = 1000
        and ?d1.0 = "\<lparr>val = Some ''manual'', since = None\<rparr>"
        and ?d2.0 = "\<lparr>val = Some ''min'', since = Some 1000\<rparr>"
        and ?d4.0 = "\<lparr>val = Some 90, since = None\<rparr>"]
    by simp
qed

text \<open>
  Claim C8: the pass does not read the temperature. Two controllers that differ only in
  the temperature entry give the same events, and the pass leaves them differing only
  in that entry; the mutator \<open>temperature\<close> stores its argument and runs such a pass.
\<close>

theorem temperature_not_read:
  "updateFans now (c\<lparr>roomStatus := (roomStatus c)\<lparr>rs_temperature := t\<rparr>\<rparr>) =
     (fst (updateFans now c),
      (snd (updateFans now c))\<lparr>roomStatus := (roomStatus c)\<lparr>rs_temperature := t\<rparr>\<rparr>)
   \<and> temperature now t c =
     (fst (updateFans now c),
      (snd (updateFans now c))\<lparr>roomStatus := (roomStatus c)\<lparr>rs_temperature := t\<rparr>\<rparr>)"
proof -
  have "\<forall>f\<in>set (room_fans (room c)).
      fanInputs f ((roomStatus c)\<lparr>rs_temperature := t\<rparr>) = fanInputs f (roomStatus c)"
    by (simp add: fanInputs_def)
  then have "updateFans now (c\<lparr>roomStatus := (roomStatus c)\<lparr>rs_temperature := t\<rparr>\<rparr>) =
     (fst (updateFans now c),
      (snd (updateFans now c))\<lparr>roomStatus := (roomStatus c)\<lparr>rs_temperature := t\<rparr>\<rparr>)"
    using updateFansLoop_reads [of "room_fans (room c)" "(roomStatus c)\<lparr>rs_temperature := t\<rparr>" c now]
    by (simp add: updateFans_def)
  then show ?thesis by (simp add: temperature_def)
qed

section \<open>Falsy humidity and trailing without an off time\<close>

text \<open>
  Claim C9: for a fan evaluated automatically with the humidity reading 0, the
  candidate speed is \<open>off\<close>, whatever the thresholds are, so the committed speed is
  \<open>min\<close> when the fan is trailing after the light step and \<open>off\<close> otherwise; the events
  and the trailing entries are those of the same controller without a humidity value.
\<close>

theorem zero_humidity_as_absent:
  assumes "autoEvaluated now (roomStatus c) f"
    and "get_humidity (roomStatus c) = Some 0"
  shows "candidateSpeed (roomStatus c) f = ''off''
         \<and> newSpeed now f (roomStatus c) (fansTrailing c (fan_id f)) =
             (if trailingAfter now f (roomStatus c) (fansTrailing c (fan_id f)) = Some True
              then ''min'' else ''off'')
         \<and> fst (updateFan now f c) =
             commit (room_id (room c)) (fan_id f) (get_speed (roomStatus c) f)
               (if trailingAfter now f (roomStatus c) (fansTrailing c (fan_id f)) = Some True
                then ''min'' else ''off'')
         \<and> fst (updateFan now f
                  (c\<lparr>roomStatus := (roomStatus c)\<lparr>rs_humidity := (rs_humidity (roomStatus c))\<lparr>val := None\<rparr>\<rparr>\<rparr>))
             = fst (updateFan now f c)
         \<and> fansTrailing (snd (updateFan now f
                  (c\<lparr>roomStatus := (roomStatus c)\<lparr>rs_humidity := (rs_humidity (roomStatus c))\<lparr>val := None\<rparr>\<rparr>\<rparr>)))
             = fansTrailing (snd (updateFan now f c))"
proof -
  let ?rs = "roomStatus c"
  let ?absent = "?rs\<lparr>rs_humidity := (rs_humidity ?rs)\<lparr>val := None\<rparr>\<rparr>"
  have cand: "candidateSpeed ?rs f = ''off''"
    using assms(2) by (simp add: candidateSpeed_def humiditySpeed_def)
  have cand0: "candidateSpeed ?absent f = ''off''"
    by (simp add: candidateSpeed_def humiditySpeed_def get_humidity_def)
  have lights: "scanLights ?absent ls acc = scanLights ?rs ls acc" for ls acc
    by (rule scanLights_cong) simp
  have same: "get_control ?absent f = get_control ?rs f" "get_speed ?absent f = get_speed ?rs f"
    "get_speedSince now ?absent f = get_speedSince now ?rs f"
    "get_minRunTime ?absent f = get_minRunTime ?rs f"
    "get_lightTimeout ?absent f = get_lightTimeout ?rs f"
    "get_trailingTime ?absent f = get_trailingTime ?rs f"
    by (simp_all add: get_control_def get_speed_def get_speedSince_def get_minRunTime_def
        get_lightTimeout_def get_trailingTime_def get_fan_def)
  have tr: "trailingAfter now f ?absent t = trailingAfter now f ?rs t" for t
    by (simp add: trailingAfter_def lights same)
  have ns: "newSpeed now f ?rs t = (if trailingAfter now f ?rs t = Some True then ''min'' else ''off'')"
    "newSpeed now f ?absent t = newSpeed now f ?rs t" for t
    by (simp_all add: newSpeed_def cand cand0 tr)
  have dec: "isManual ?absent f = isManual ?rs f" "keepRunning now ?absent f = keepRunning now ?rs f"
    by (simp_all add: isManual_def keepRunning_def same)
  have auto: "\<not> isManual ?rs f" "\<not> keepRunning now ?rs f"
    using assms(1) by (simp_all add: autoEvaluated_def)
  have one: "fst (updateFan now f c) =
      commit (room_id (room c)) (fan_id f) (get_speed ?rs f)
        (if trailingAfter now f ?rs (fansTrailing c (fan_id f)) = Some True then ''min'' else ''off'')"
    using auto by (simp add: updateFan_def Let_def ns)
  have two: "fst (updateFan now f (c\<lparr>roomStatus := ?absent\<rparr>)) = fst (updateFan now f c)"
    "fansTrailing (snd (updateFan now f (c\<lparr>roomStatus := ?absent\<rparr>))) = fansTrailing (snd (updateFan now f c))"
    using auto by (simp_all add: updateFan_def Let_def dec same ns tr)
  show ?thesis using cand ns(1) one two by simp
qed

theorem zero_humidity_as_absent_witness:
  "autoEvaluated 1000
     (roomStatus (bath_thresholds (-5) (-1) (bath ''auto'' ''off'' None (Some 0) None))) bath_fan
   \<and> get_humidity (roomStatus (bath_thresholds (-5) (-1) (bath ''auto'' ''off'' None (Some 0) None)))
       = Some 0
   \<and> get_maxHumidityThreshold
       (roomStatus (bath_thresholds (-5) (-1) (bath ''auto'' ''off'' None (Some 0) None))) bath_fan = -1
   \<and> candidateSpeed
       (roomStatus (bath_thresholds (-5) (-1) (bath ''auto'' ''off'' None (Some 0) None))) bath_fan
       = ''off''
   \<and> fst (updateFan 1000 bath_fan (bath_thresholds (-5) (-1) (bath ''auto'' ''off'' None (Some 0) None)))
       = [Actuate ''fan1'' ''off'']"
proof -
  let ?c = "bath_thresholds (-5) (-1) (bath ''auto'' ''off'' None (Some 0) None)"
  have a: "autoEvaluated 1000 (roomStatus ?c) bath_fan"
    by (simp add: status_defs pass_defs bath_defs)
  have h: "get_humidity (roomStatus ?c) = Some 0"
    by (simp add: status_defs bath_defs)
  have m: "get_maxHumidityThreshold (roomStatus ?c) bath_fan = -1"
    by (simp add: status_defs bath_defs)
  have t: "trailingAfter 1000 bath_fan (roomStatus ?c) (fansTrailing ?c ''fan1'') = None"
    by (simp add: status_defs pass_defs bath_defs)
  have s: "get_speed (roomStatus ?c) bath_fan = ''off''" "fan_id bath_fan = ''fan1''"
    by (simp_all add: status_defs bath_defs)
  show ?thesis
    using a h m zero_humidity_as_absent [OF a h] by (simp add: t s commit_def)
qed

text \<open>
  Claim C10: for a fan evaluated automatically that is trailing, with no trigger light
  on and no \<open>since\<close> under any trigger light (as for the entries the constructor
  stores), the fan is still trailing after the iteration and the committed speed is
  \<open>min\<close>, at every clock reading.
\<close>

theorem trailing_without_off_since_persists:
  assumes "autoEvaluated now (roomStatus c) f"
    and "fansTrailing c (fan_id f) = Some True"
    and "\<forall>l\<in>set (fan_triggerLights f).
           light_val (roomStatus c) l \<noteq> Some (Plain ''on'') \<and> light_since (roomStatus c) l = None"
  shows "fansTrailing (snd (updateFan now f c)) (fan_id f) = Some True
         \<and> newSpeed now f (roomStatus c) (fansTrailing c (fan_id f)) = ''min''
         \<and> fst (updateFan now f c) =
             commit (room_id (room c)) (fan_id f) (get_speed (roomStatus c) f) ''min''"
proof -
  have sc: "scanLights (roomStatus c) (fan_triggerLights f) (None, None, False) = (None, None, False)"
    using scanLights_no_since [OF assms(3)] .
  have tr: "trailingAfter now f (roomStatus c) (Some True) = Some True"
    by (simp add: trailingAfter_def sc lightTimeoutStep_def trailingTimeStep_def)
  then have ns: "newSpeed now f (roomStatus c) (Some True) = ''min''"
    by (simp add: newSpeed_def)
  show ?thesis
    using assms(1,2) tr ns by (simp add: updateFan_def autoEvaluated_def Let_def)
qed

theorem trailing_without_off_since_persists_witness:
  "autoEvaluated 1000000000 (roomStatus (bath ''auto'' ''off'' None (Some 40) (Some True))) bath_fan
   \<and> fansTrailing (bath ''auto'' ''off'' None (Some 40) (Some True)) (fan_id bath_fan) = Some True
   \<and> rs_lights (roomStatus (bath ''auto'' ''off'' None (Some 40) (Some True))) ''light1'' =
       Some initial_light_status
   \<and> fansTrailing (snd (updateFan 1000000000 bath_fan (bath ''auto'' ''off'' None (Some 40) (Some True))))
       ''fan1'' = Some True
   \<and> fst (updateFan 1000000000 bath_fan (bath ''auto'' ''off'' None (Some 40) (Some True))) =
       [Publish ''bath'' ''fan1'' ''min'', Actuate ''fan1'' ''min'']"
proof -
  let ?c = "bath ''auto'' ''off'' None (Some 40) (Some True)"
  have a: "autoEvaluated 1000000000 (roomStatus ?c) bath_fan"
    by (simp add: status_defs pass_defs bath_defs)
  have t: "fansTrailing ?c (fan_id bath_fan) = Some True"
    by (simp add: bath_defs)
  have l: "\<forall>l\<in>set (fan_triggerLights bath_fan).
      light_val (roomStatus ?c) l \<noteq> Some (Plain ''on'') \<and> light_since (roomStatus ?c) l = None"
    by (simp add: status_defs bath_defs)
  have s: "get_speed (roomStatus ?c) bath_fan = ''off''" "fan_id bath_fan = ''fan1''"
    "room_id (room ?c) = ''bath''"
    "rs_lights (roomStatus ?c) ''light1'' = Some initial_light_status"
    by (simp_all add: status_defs bath_defs)
  show ?thesis
    using a t trailing_without_off_since_persists [OF a t l] by (simp add: s commit_def)
qed

end
